theory Spec2Isabelle
  imports Complex_Main
begin

section \<open>Python values and exceptions\<close>

text \<open>
  The estimator's constructor stores whatever the caller passes; \<open>_check_parameters\<close>
  inspects the dynamic type of each parameter. A parameter is therefore a dynamically
  typed value. \<open>PFloat\<close> is a finite Python float, given by its real value. \<open>PObj\<close>
  stands for any object that is not \<open>None\<close>, not a string and not an instance of
  \<open>numbers.Number\<close> (it compares unequal to the other values and is truthy). Numbers
  other than bools, integers and finite floats (\<open>Fraction\<close>, \<open>Decimal\<close>, complex
  numbers, infinite floats and NaN) are not among the values of a parameter or bound here.
\<close>

datatype pyval = PNone | PBool bool | PInt int | PFloat real | PStr string | PObj

datatype error =
    ValueError string
  | TypeError string
  | NotFittedError
  | IndexError
  | UnboundLocalError
  | AttributeError
  | OverflowError
  | SolverError string

text \<open>The numeric value of an instance of \<open>numbers.Number\<close> (\<open>bool\<close> is a subclass of \<open>int\<close>).\<close>

fun num_of :: "pyval \<Rightarrow> real option" where
  "num_of (PBool b) = Some (if b then 1 else 0)"
| "num_of (PInt i) = Some (of_int i)"
| "num_of (PFloat r) = Some r"
| "num_of _ = None"

text \<open>\<open>isinstance(v, numbers.Number)\<close>, \<open>isinstance(v, numbers.Integral)\<close>, \<open>isinstance(v, bool)\<close>.\<close>

definition is_number :: "pyval \<Rightarrow> bool" where
  "is_number v = (num_of v \<noteq> None)"

fun is_integral :: "pyval \<Rightarrow> bool" where
  "is_integral (PBool b) = True"
| "is_integral (PInt i) = True"
| "is_integral _ = False"

fun is_bool :: "pyval \<Rightarrow> bool" where
  "is_bool (PBool b) = True"
| "is_bool _ = False"

text \<open>A comparison of a number with constants, as in \<open>0 <= degree <= 5\<close>.\<close>

definition num_sat :: "(real \<Rightarrow> bool) \<Rightarrow> pyval \<Rightarrow> bool" where
  "num_sat P v = (case num_of v of Some r \<Rightarrow> P r | None \<Rightarrow> False)"

text \<open>Python's \<open>==\<close>: numbers compare by value, everything else structurally.\<close>

definition py_eq :: "pyval \<Rightarrow> pyval \<Rightarrow> bool" where
  "py_eq a b =
     (case (num_of a, num_of b) of
        (Some x, Some y) \<Rightarrow> x = y
      | _ \<Rightarrow> a = b \<and> a \<noteq> PObj)"

text \<open>\<open>v in (s1, ..., sn)\<close> for a tuple of string literals.\<close>

definition py_in :: "pyval \<Rightarrow> string list \<Rightarrow> bool" where
  "py_in v xs = list_ex (\<lambda>s. py_eq v (PStr s)) xs"

text \<open>Truth value of an object in a condition (\<open>if continuous:\<close>).\<close>

fun truthy :: "pyval \<Rightarrow> bool" where
  "truthy PNone = False"
| "truthy (PBool b) = b"
| "truthy (PInt i) = (i \<noteq> 0)"
| "truthy (PFloat r) = (r \<noteq> 0)"
| "truthy (PStr s) = (s \<noteq> [])"
| "truthy PObj = True"

section \<open>Parameter validation and method selection (base.py)\<close>

text \<open>
  \<open>_check_parameters\<close>: the checks in the order of the source; the three checks on
  \<open>monotonic_trend\<close> are nested under \<open>monotonic_trend is not None\<close>.
\<close>

definition check_parameters ::
  "pyval \<Rightarrow> pyval \<Rightarrow> pyval \<Rightarrow> pyval \<Rightarrow> pyval \<Rightarrow> pyval \<Rightarrow> pyval \<Rightarrow> pyval \<Rightarrow> error + unit" where
  "check_parameters objective degree continuous' monotonic_trend solver
                    h_epsilon quantile verbose =
     (if \<not> py_in objective [''l1'', ''l2'', ''huber'', ''quantile''] then
        Inl (ValueError ''Invalid value for objective.'')
      else if \<not> is_integral degree \<or> \<not> num_sat (\<lambda>d. 0 \<le> d \<and> d \<le> 5) degree then
        Inl (ValueError ''degree must be an integer in [0, 5].'')
      else if \<not> is_bool continuous' then
        Inl (TypeError ''continuous must be a boolean.'')
      else if monotonic_trend \<noteq> PNone \<and>
              \<not> py_in monotonic_trend [''ascending'', ''descending'', ''convex'', ''concave''] then
        Inl (ValueError ''Invalid value for monotonic trend.'')
      else if monotonic_trend \<noteq> PNone \<and>
              py_in monotonic_trend [''convex'', ''concave''] \<and> \<not> py_eq degree (PInt 1) then
        Inl (ValueError ''convex and concave valid if degree = 1.'')
      else if monotonic_trend \<noteq> PNone \<and>
              py_in monotonic_trend [''convex'', ''concave''] \<and> \<not> truthy continuous' then
        Inl (ValueError ''convex and concave valid if continuous=True.'')
      else if \<not> py_in solver [''auto'', ''ecos'', ''osqp'', ''direct''] then
        Inl (ValueError ''Invalid value for solver.'')
      else if \<not> is_number h_epsilon \<or> num_sat (\<lambda>h. h < 1) h_epsilon then
        Inl (ValueError ''h_epsilon must a number >= 1.0.'')
      else if \<not> is_number quantile \<or> \<not> num_sat (\<lambda>q. 0 < q \<and> q < 1) quantile then
        Inl (ValueError ''quantile must be a value in (0, 1).'')
      else if \<not> is_bool verbose then
        Inl (TypeError ''verbose must be a boolean.'')
      else Inr ())"

text \<open>
  \<open>_choose_method\<close>. The result is the method tag; \<open>Inr None\<close> is Python's implicit
  \<open>return None\<close> when no branch of the \<open>if\<close>/\<open>elif\<close> chain on \<open>solver\<close> is taken.
\<close>

definition choose_method ::
  "pyval \<Rightarrow> pyval \<Rightarrow> pyval \<Rightarrow> pyval \<Rightarrow> pyval \<Rightarrow> bool \<Rightarrow> error + string option" where
  "choose_method objective degree continuous' monotonic_trend solver bounded =
     (if py_eq solver (PStr ''auto'') then
        (if bounded then
           (if truthy continuous' then Inr (Some ''socp'') else Inr (Some ''socp_separated''))
         else
           (if py_eq objective (PStr ''l2'') then
              (if monotonic_trend = PNone then
                 (if truthy continuous' then Inr (Some ''lsq_direct'')
                  else Inr (Some ''lsq_direct_separated''))
               else
                 (if truthy continuous' then Inr (Some ''qp'') else Inr (Some ''qp_separated'')))
            else
              (if truthy continuous' then Inr (Some ''socp'')
               else Inr (Some ''socp_separated''))))
      else if py_eq solver (PStr ''direct'') then
        (if \<not> py_eq objective (PStr ''l2'') \<or> monotonic_trend \<noteq> PNone \<or> bounded then
           Inl (ValueError ''solver direct only for objective=l2, monotonic_trend=None and lb=ub=None.'')
         else
           (if truthy continuous' then Inr (Some ''lsq_direct'')
            else Inr (Some ''lsq_direct_separated'')))
      else if py_eq solver (PStr ''osqp'') then
        (if py_eq objective (PStr ''l2'') then
           (if truthy continuous' then Inr (Some ''qp'') else Inr (Some ''qp_separated''))
         else Inl (ValueError ''solver=osqp only for objective=l2.''))
      else if py_eq solver (PStr ''ecos'') then
        (if truthy continuous' then Inr (Some ''socp'') else Inr (Some ''socp_separated''))
      else Inr None)"

subsection \<open>The decision table of the specification\<close>

text \<open>
  The table of the method selector as the specification words it, row by row, over the
  solver request, whether the objective is l2, whether a shape constraint is set, whether
  the fit is bounded, and the continuity flag. \<open>None\<close> means that no row applies.
\<close>

datatype formulation = DirectLeastSquares | QuadraticProgram | SecondOrderCone

datatype outcome = HardError | Use formulation bool

definition selector_table :: "string \<Rightarrow> bool \<Rightarrow> bool \<Rightarrow> bool \<Rightarrow> bool \<Rightarrow> outcome option" where
  "selector_table solver is_l2 shape bounded continuous' =
     (if solver = ''direct'' \<and> (\<not> is_l2 \<or> shape \<or> bounded) then Some HardError
      else if solver = ''direct'' \<and> is_l2 \<and> \<not> shape \<and> \<not> bounded then
        Some (Use DirectLeastSquares continuous')
      else if solver = ''osqp'' \<and> \<not> is_l2 then Some HardError
      else if solver = ''osqp'' \<and> is_l2 then Some (Use QuadraticProgram continuous')
      else if solver = ''ecos'' then Some (Use SecondOrderCone continuous')
      else if solver = ''auto'' \<and> bounded then Some (Use SecondOrderCone continuous')
      else if solver = ''auto'' \<and> \<not> bounded \<and> is_l2 \<and> \<not> shape then
        Some (Use DirectLeastSquares continuous')
      else if solver = ''auto'' \<and> \<not> bounded \<and> is_l2 \<and> shape then
        Some (Use QuadraticProgram continuous')
      else if solver = ''auto'' \<and> \<not> bounded \<and> \<not> is_l2 then
        Some (Use SecondOrderCone continuous')
      else None)"

text \<open>The six canonical formulation tags.\<close>

fun tag_of :: "formulation \<Rightarrow> bool \<Rightarrow> string" where
  "tag_of DirectLeastSquares True = ''lsq_direct''"
| "tag_of DirectLeastSquares False = ''lsq_direct_separated''"
| "tag_of QuadraticProgram True = ''qp''"
| "tag_of QuadraticProgram False = ''qp_separated''"
| "tag_of SecondOrderCone True = ''socp''"
| "tag_of SecondOrderCone False = ''socp_separated''"

definition canonical_tags :: "string list" where
  "canonical_tags =
     [''lsq_direct'', ''lsq_direct_separated'', ''qp'', ''qp_separated'', ''socp'',
      ''socp_separated'']"

section \<open>Bounds, splits and arrays (base.py)\<close>

text \<open>
  \<open>lb > ub\<close> is evaluated only after both were checked to be numbers.
\<close>

definition py_gt :: "pyval \<Rightarrow> pyval \<Rightarrow> bool" where
  "py_gt a b = (case (num_of a, num_of b) of (Some x, Some y) \<Rightarrow> x > y | _ \<Rightarrow> False)"

definition check_bounds :: "pyval \<Rightarrow> pyval \<Rightarrow> error + unit" where
  "check_bounds lb ub =
     (if lb \<noteq> PNone \<and> \<not> is_number lb then Inl (TypeError ''lb must be a number or None.'')
      else if ub \<noteq> PNone \<and> \<not> is_number ub then Inl (TypeError ''ub must be a number or None.'')
      else if lb \<noteq> PNone \<and> ub \<noteq> PNone \<and> py_gt lb ub then Inl (ValueError ''lb must be <= ub.'')
      else Inr ())"

text \<open>
  One-dimensional arrays are lists of reals, so every element is finite and the
  \<open>force_all_finite\<close> test of scikit-learn's \<open>check_array\<close> cannot fire; what remains of
  \<open>check_array(a, ensure_2d=False, force_all_finite=True)\<close> is its default
  \<open>ensure_min_samples=1\<close>.
\<close>

definition check_array :: "real list \<Rightarrow> error + real list" where
  "check_array a =
     (if length a < 1 then Inl (ValueError ''Found array with 0 sample(s).'') else Inr a)"

text \<open>
  \<open>np.argsort(a)\<close> and the fancy index \<open>a[idx]\<close>. Equal keys are kept in their
  original order here; numpy's default sort may order them differently, which only
  permutes equal keys.
\<close>

definition argsort :: "real list \<Rightarrow> nat list" where
  "argsort a = map snd (sort_key fst (zip a [0..<length a]))"

definition take_idx :: "'a list \<Rightarrow> nat list \<Rightarrow> 'a list" where
  "take_idx a idx = map (\<lambda>i. a ! i) idx"

definition check_splits :: "real list \<Rightarrow> error + real list" where
  "check_splits splits =
     (case check_array splits of
        Inl e \<Rightarrow> Inl e
      | Inr user_splits \<Rightarrow>
          if card (set user_splits) \<noteq> length user_splits then
            Inl (ValueError ''splits are not unique.'')
          else
            let sorted_idx = argsort user_splits
            in Inr (take_idx user_splits sorted_idx))"

section \<open>The estimator (base.py)\<close>

text \<open>
  The six formulation builders live in modules outside this development; \<open>fit\<close> takes
  them as a parameter. Each receives exactly the arguments \<open>fit\<close> passes and either
  returns the coefficient table (one row per segment, ascending powers) or raises.
\<close>

type_synonym coef_table = "real list list"

record solvers =
  lsq_direct :: "real list \<Rightarrow> real list \<Rightarrow> real list \<Rightarrow> pyval \<Rightarrow> error + coef_table"
  lsq_direct_separated ::
    "real list \<Rightarrow> real list \<Rightarrow> real list \<Rightarrow> pyval \<Rightarrow> error + coef_table"
  socp ::
    "real list \<Rightarrow> real list \<Rightarrow> real list \<Rightarrow> pyval \<Rightarrow> pyval \<Rightarrow> pyval \<Rightarrow> pyval \<Rightarrow> pyval \<Rightarrow>
     pyval \<Rightarrow> pyval \<Rightarrow> pyval \<Rightarrow> pyval \<Rightarrow> error + coef_table"
  socp_separated ::
    "real list \<Rightarrow> real list \<Rightarrow> real list \<Rightarrow> pyval \<Rightarrow> pyval \<Rightarrow> pyval \<Rightarrow> pyval \<Rightarrow> pyval \<Rightarrow>
     pyval \<Rightarrow> pyval \<Rightarrow> pyval \<Rightarrow> pyval \<Rightarrow> error + coef_table"
  qp ::
    "real list \<Rightarrow> real list \<Rightarrow> real list \<Rightarrow> pyval \<Rightarrow> pyval \<Rightarrow> pyval \<Rightarrow> pyval \<Rightarrow> pyval \<Rightarrow>
     error + coef_table"
  qp_separated ::
    "real list \<Rightarrow> real list \<Rightarrow> real list \<Rightarrow> pyval \<Rightarrow> pyval \<Rightarrow> pyval \<Rightarrow> pyval \<Rightarrow> pyval \<Rightarrow>
     error + coef_table"

text \<open>
  The instance: the eight constructor parameters, \<open>coef_\<close> (\<open>None\<close> until a fit
  succeeds), \<open>_splits\<close> (the attribute does not exist until a fit succeeds) and
  \<open>_is_fitted\<close>.
\<close>

record estimator =
  objective :: pyval
  degree :: pyval
  continuous' :: pyval
  monotonic_trend :: pyval
  solver :: pyval
  h_epsilon :: pyval
  quantile :: pyval
  verbose :: pyval
  coef :: "coef_table option"
  splits_attr :: "real list option"
  is_fitted :: bool

definition init ::
  "pyval \<Rightarrow> pyval \<Rightarrow> pyval \<Rightarrow> pyval \<Rightarrow> pyval \<Rightarrow> pyval \<Rightarrow> pyval \<Rightarrow> pyval \<Rightarrow> estimator" where
  "init ob dg ct mt sv he qu vb =
     \<lparr>objective = ob, degree = dg, continuous' = ct, monotonic_trend = mt, solver = sv,
      h_epsilon = he, quantile = qu, verbose = vb,
      coef = None, splits_attr = None, is_fitted = False\<rparr>"

text \<open>
  The dispatch on \<open>_method\<close> in \<open>fit\<close>. When no branch matches, \<open>c\<close> is never bound
  and reading it for \<open>self.coef_ = c\<close> raises \<open>UnboundLocalError\<close>.
\<close>

definition run_method ::
  "solvers \<Rightarrow> estimator \<Rightarrow> string option \<Rightarrow> real list \<Rightarrow> real list \<Rightarrow> real list \<Rightarrow>
   pyval \<Rightarrow> pyval \<Rightarrow> error + coef_table" where
  "run_method S self method xs ys splits lb ub =
     (if method = Some ''lsq_direct'' then
        lsq_direct S xs ys splits (degree self)
      else if method = Some ''lsq_direct_separated'' then
        lsq_direct_separated S xs ys splits (degree self)
      else if method = Some ''socp'' then
        socp S xs ys splits (degree self) lb ub (objective self) (monotonic_trend self)
          (h_epsilon self) (quantile self) (solver self) (verbose self)
      else if method = Some ''socp_separated'' then
        socp_separated S xs ys splits (degree self) lb ub (objective self)
          (monotonic_trend self) (h_epsilon self) (quantile self) (solver self) (verbose self)
      else if method = Some ''qp'' then
        qp S xs ys splits (degree self) lb ub (monotonic_trend self) (verbose self)
      else if method = Some ''qp_separated'' then
        qp_separated S xs ys splits (degree self) lb ub (monotonic_trend self) (verbose self)
      else Inl UnboundLocalError)"

text \<open>
  \<open>fit\<close> returns the outcome of the call together with the instance as the call leaves
  it. The result of \<open>_check_splits\<close> is not bound to anything; the three attribute
  assignments come last.
\<close>

definition fit ::
  "solvers \<Rightarrow> estimator \<Rightarrow> real list \<Rightarrow> real list \<Rightarrow> real list \<Rightarrow> pyval \<Rightarrow> pyval \<Rightarrow>
   (error + unit) \<times> estimator" where
  "fit S self x y splits lb ub =
     (case check_parameters (objective self) (degree self) (continuous' self)
             (monotonic_trend self) (solver self) (h_epsilon self) (quantile self)
             (verbose self) of
        Inl e \<Rightarrow> (Inl e, self)
      | Inr _ \<Rightarrow>
     (case check_array x of
        Inl e \<Rightarrow> (Inl e, self)
      | Inr x1 \<Rightarrow>
     (case check_array y of
        Inl e \<Rightarrow> (Inl e, self)
      | Inr y1 \<Rightarrow>
     if length x1 \<noteq> length y1 then
       (Inl (ValueError ''Found input variables with inconsistent numbers of samples.''), self)
     else
       let idx = argsort x1;
           xs = take_idx x1 idx;
           ys = take_idx y1 idx
       in
     (case check_splits splits of
        Inl e \<Rightarrow> (Inl e, self)
      | Inr _ \<Rightarrow>
       let bounded = (lb \<noteq> PNone \<or> ub \<noteq> PNone) in
     (case (if bounded then check_bounds lb ub else Inr ()) of
        Inl e \<Rightarrow> (Inl e, self)
      | Inr _ \<Rightarrow>
     (case choose_method (objective self) (degree self) (continuous' self)
             (monotonic_trend self) (solver self) bounded of
        Inl e \<Rightarrow> (Inl e, self)
      | Inr method \<Rightarrow>
     (case run_method S self method xs ys splits lb ub of
        Inl e \<Rightarrow> (Inl e, self)
      | Inr c \<Rightarrow>
          let self1 = self\<lparr>coef := Some c\<rparr>;
              self2 = self1\<lparr>splits_attr := Some splits\<rparr>;
              self3 = self2\<lparr>is_fitted := True\<rparr>
          in (Inr (), self3))))))))"

subsection \<open>Prediction\<close>

text \<open>
  \<open>fit\<close> passes its arrays through \<open>check_array\<close>; \<open>predict\<close> does not, so a sample
  given to \<open>predict\<close> is any float64 value: finite, infinite or NaN. Arithmetic on
  finite values is exact here (rounding and overflow of a finite result are not
  modelled, and the two zeros are not told apart); infinities and NaN follow IEEE 754.
\<close>

datatype float64 = Fin real | PInf | NInf | NaN

definition signed_inf :: "real \<Rightarrow> float64" where
  "signed_inf s = (if s = 0 then NaN else if 0 < s then PInf else NInf)"

fun fl_mul :: "float64 \<Rightarrow> float64 \<Rightarrow> float64" where
  "fl_mul NaN b = NaN"
| "fl_mul a NaN = NaN"
| "fl_mul (Fin a) (Fin b) = Fin (a * b)"
| "fl_mul (Fin a) PInf = signed_inf a"
| "fl_mul (Fin a) NInf = signed_inf (- a)"
| "fl_mul PInf (Fin b) = signed_inf b"
| "fl_mul NInf (Fin b) = signed_inf (- b)"
| "fl_mul PInf PInf = PInf"
| "fl_mul PInf NInf = NInf"
| "fl_mul NInf PInf = NInf"
| "fl_mul NInf NInf = PInf"

fun fl_add :: "float64 \<Rightarrow> float64 \<Rightarrow> float64" where
  "fl_add NaN b = NaN"
| "fl_add a NaN = NaN"
| "fl_add (Fin a) (Fin b) = Fin (a + b)"
| "fl_add (Fin a) PInf = PInf"
| "fl_add (Fin a) NInf = NInf"
| "fl_add PInf (Fin b) = PInf"
| "fl_add NInf (Fin b) = NInf"
| "fl_add PInf PInf = PInf"
| "fl_add NInf NInf = NInf"
| "fl_add PInf NInf = NaN"
| "fl_add NInf PInf = NaN"

text \<open>
  The order in which numpy sorts and searches: NaN comes after every other value. A bin
  edge \<open>s\<close> is finite.
\<close>

fun le_sample :: "real \<Rightarrow> float64 \<Rightarrow> bool" where
  "le_sample s (Fin v) = (s \<le> v)"
| "le_sample s PInf = True"
| "le_sample s NInf = False"
| "le_sample s NaN = True"

text \<open>
  \<open>np.digitize(x, bins, right=False)\<close>: non-decreasing bins are searched from the left
  (\<open>searchsorted\<close> with \<open>side='right'\<close>), non-increasing bins are reversed and the result
  inverted, and bins that are neither raise. On a sorted array \<open>searchsorted(a, v,
  side='right')\<close> is the length of the longest prefix of elements \<open>\<le> v\<close>.
\<close>

definition searchsorted_right :: "real list \<Rightarrow> float64 \<Rightarrow> nat" where
  "searchsorted_right a v = length (takeWhile (\<lambda>s. le_sample s v) a)"

definition digitize :: "float64 list \<Rightarrow> real list \<Rightarrow> error + nat list" where
  "digitize x bins =
     (if sorted bins then Inr (map (searchsorted_right bins) x)
      else if sorted (rev bins) then
        Inr (map (\<lambda>v. length bins - searchsorted_right (rev bins) v) x)
      else Inl (ValueError ''bins must be monotonically increasing or decreasing''))"

text \<open>\<open>np.polyval(p, v)\<close>: Horner's rule, highest power first, starting from zero.\<close>

definition polyval :: "real list \<Rightarrow> float64 \<Rightarrow> float64" where
  "polyval p v = foldl (\<lambda>acc pv. fl_add (fl_mul acc v) (Fin pv)) (Fin 0) p"

text \<open>\<open>pred[mask] = np.polyval(row[::-1], x[mask])\<close> with \<open>mask = (indices == i)\<close>.\<close>

definition assign_masked ::
  "nat \<Rightarrow> real list \<Rightarrow> nat list \<Rightarrow> float64 list \<Rightarrow> float64 list \<Rightarrow> float64 list" where
  "assign_masked i row indices x pred =
     map (\<lambda>(p, k, v). if k = i then polyval (rev row) v else p) (zip pred (zip indices x))"

text \<open>
  The loop \<open>for i in range(n_bins)\<close>; \<open>self.coef_[i, :]\<close> raises \<open>IndexError\<close> when the
  table has no row \<open>i\<close>.
\<close>

fun predict_loop ::
  "coef_table \<Rightarrow> nat list \<Rightarrow> float64 list \<Rightarrow> nat list \<Rightarrow> float64 list \<Rightarrow>
   error + float64 list" where
  "predict_loop c indices x [] pred = Inr pred"
| "predict_loop c indices x (i # rest) pred =
     (if i < length c then
        predict_loop c indices x rest (assign_masked i (c ! i) indices x pred)
      else Inl IndexError)"

text \<open>
  \<open>np.clip\<close> works in float64, so a bound is converted first. A bool and a finite float
  convert exactly. An integer is rounded to the nearest float64, ties to the even
  significand (53 bits), and an integer too large for float64 raises \<open>OverflowError\<close>.
\<close>

fun bit_length :: "nat \<Rightarrow> nat" where
  "bit_length n = (if n = 0 then 0 else Suc (bit_length (n div 2)))"

declare bit_length.simps [simp del]

definition float64_of_int :: "int \<Rightarrow> real option" where
  "float64_of_int i =
     (let m = nat \<bar>i\<bar>; n = bit_length m in
      if n \<le> 53 then Some (of_int i)
      else
        let sh = n - 53;
            q = m div 2 ^ sh;
            r = m mod 2 ^ sh;
            half = 2 ^ (sh - 1);
            q1 = (if half < r \<or> (r = half \<and> odd q) then q + 1 else q);
            v = q1 * 2 ^ sh
        in if 2 ^ 1024 \<le> v then None
           else Some (if i < 0 then - real v else real v))"

text \<open>The float64 value of a bound; \<open>None\<close> stands for a bound that is not given.\<close>

fun bound_float64 :: "pyval \<Rightarrow> error + real option" where
  "bound_float64 PNone = Inr None"
| "bound_float64 (PBool b) = Inr (Some (if b then 1 else 0))"
| "bound_float64 (PInt i) =
     (case float64_of_int i of None \<Rightarrow> Inl OverflowError | Some r \<Rightarrow> Inr (Some r))"
| "bound_float64 (PFloat r) = Inr (Some r)"
| "bound_float64 (PStr s) = Inl (TypeError ''bound is not a number'')"
| "bound_float64 PObj = Inl (TypeError ''bound is not a number'')"

text \<open>\<open>np.maximum\<close> and \<open>np.minimum\<close> against a finite bound: NaN propagates.\<close>

fun fl_max :: "float64 \<Rightarrow> real option \<Rightarrow> float64" where
  "fl_max p None = p"
| "fl_max NaN (Some l) = NaN"
| "fl_max PInf (Some l) = PInf"
| "fl_max NInf (Some l) = Fin l"
| "fl_max (Fin r) (Some l) = Fin (max r l)"

fun fl_min :: "float64 \<Rightarrow> real option \<Rightarrow> float64" where
  "fl_min p None = p"
| "fl_min NaN (Some u) = NaN"
| "fl_min PInf (Some u) = Fin u"
| "fl_min NInf (Some u) = NInf"
| "fl_min (Fin r) (Some u) = Fin (min r u)"

text \<open>
  \<open>np.clip(pred, lb, ub)\<close> is \<open>minimum(maximum(pred, lb), ub)\<close>, where a bound that is
  \<open>None\<close> is not applied.
\<close>

definition clip :: "float64 list \<Rightarrow> pyval \<Rightarrow> pyval \<Rightarrow> error + float64 list" where
  "clip pred lb ub =
     (case bound_float64 lb of
        Inl e \<Rightarrow> Inl e
      | Inr l \<Rightarrow>
     (case bound_float64 ub of
        Inl e \<Rightarrow> Inl e
      | Inr u \<Rightarrow> Inr (map (\<lambda>p. fl_min (fl_max p l) u) pred)))"

definition predict :: "estimator \<Rightarrow> float64 list \<Rightarrow> pyval \<Rightarrow> pyval \<Rightarrow> error + float64 list" where
  "predict self x lb ub =
     (if \<not> is_fitted self then Inl NotFittedError
      else
        let bounded = (lb \<noteq> PNone \<or> ub \<noteq> PNone) in
        (case (if bounded then check_bounds lb ub else Inr ()) of
           Inl e \<Rightarrow> Inl e
         | Inr _ \<Rightarrow>
        (case splits_attr self of
           None \<Rightarrow> Inl AttributeError
         | Some splits \<Rightarrow>
            let n_bins = length splits + 1 in
        (case digitize x splits of
           Inl e \<Rightarrow> Inl e
         | Inr indices \<Rightarrow>
            let pred0 = replicate (length x) (Fin 0) in
        (case coef self of
           None \<Rightarrow> Inl (TypeError ''NoneType object is not subscriptable'')
         | Some c \<Rightarrow>
        (case predict_loop c indices x [0..<n_bins] pred0 of
           Inl e \<Rightarrow> Inl e
         | Inr pred \<Rightarrow>
            if bounded then clip pred lb ub else Inr pred))))))"

section \<open>Shape constraints (cvx.py)\<close>

text \<open>
  \<open>D * c >= 0\<close> and \<open>D * c <= 0\<close> build a constraint object over the variable \<open>c\<close>:
  the matrix (a list of rows), the variable and the relation.
\<close>

datatype 'v constraint = Geq0 "real list list" 'v | Leq0 "real list list" 'v

text \<open>
  The function returns one constraint for a one-sided trend, a list of two for a
  two-sided one, and \<open>None\<close> (no \<open>return\<close> is reached) for anything else.
\<close>

datatype 'v trend_result = Single "'v constraint" | Several "'v constraint list" | NoResult

text \<open>Python's slices \<open>D[:t, :]\<close> and \<open>D[t:, :]\<close> of the rows; \<open>t\<close> may be \<open>None\<close> or negative.\<close>

definition rows_to :: "'a list \<Rightarrow> int option \<Rightarrow> 'a list" where
  "rows_to D t =
     (case t of
        None \<Rightarrow> D
      | Some k \<Rightarrow> if 0 \<le> k then take (nat k) D else take (nat (int (length D) + k)) D)"

definition rows_from :: "'a list \<Rightarrow> int option \<Rightarrow> 'a list" where
  "rows_from D t =
     (case t of
        None \<Rightarrow> D
      | Some k \<Rightarrow> if 0 \<le> k then drop (nat k) D else drop (nat (int (length D) + k)) D)"

definition monotonic_trend_constraints ::
  "pyval \<Rightarrow> 'v \<Rightarrow> real list list \<Rightarrow> int option \<Rightarrow> 'v trend_result" where
  "monotonic_trend_constraints trend c D t =
     (if py_in trend [''ascending'', ''convex''] then Single (Geq0 D c)
      else if py_in trend [''descending'', ''concave''] then Single (Leq0 D c)
      else if py_eq trend (PStr ''valley'') then
        Several [Leq0 (rows_to D t) c, Geq0 (rows_from D t) c]
      else if py_eq trend (PStr ''peak'') then
        Several [Geq0 (rows_to D t) c, Leq0 (rows_from D t) c]
      else NoResult)"

text \<open>
  What a constraint means for a value of the variables: every row of the matrix, applied
  to the vector, has the sign the relation asks for.
\<close>

definition dot :: "real list \<Rightarrow> real list \<Rightarrow> real" where
  "dot r w = sum_list (map (\<lambda>(a, b). a * b) (zip r w))"

fun holds :: "('v \<Rightarrow> real list) \<Rightarrow> 'v constraint \<Rightarrow> bool" where
  "holds val (Geq0 D c) = list_all (\<lambda>r. 0 \<le> dot r (val c)) D"
| "holds val (Leq0 D c) = list_all (\<lambda>r. dot r (val c) \<le> 0) D"

section \<open>Auxiliary notions for the statements\<close>

text \<open>A configuration error is a \<open>ValueError\<close> or a \<open>TypeError\<close>.\<close>

fun config_error :: "error \<Rightarrow> bool" where
  "config_error (ValueError msg) = True"
| "config_error (TypeError msg) = True"
| "config_error _ = False"

text \<open>
  A caller that issues a sequence of \<open>fit\<close> calls on one instance, catching whatever a
  call raises: the outcome of every call and the instance after the last one.
\<close>

type_synonym fit_args = "real list \<times> real list \<times> real list \<times> pyval \<times> pyval"

fun fit_all :: "solvers \<Rightarrow> estimator \<Rightarrow> fit_args list \<Rightarrow> (error + unit) list \<times> estimator" where
  "fit_all S self [] = ([], self)"
| "fit_all S self ((x, y, splits, lb, ub) # calls) =
     (case fit S self x y splits lb ub of
        (r, self1) \<Rightarrow> (case fit_all S self1 calls of (rs, self2) \<Rightarrow> (r # rs, self2)))"

text \<open>
  Stand-ins for the external solvers, for running \<open>fit\<close> on concrete inputs: every solver
  returns the given table, or every solver raises.
\<close>

definition const_solvers :: "error + coef_table \<Rightarrow> solvers" where
  "const_solvers r =
     \<lparr>lsq_direct = (\<lambda>xs ys splits degree. r),
      lsq_direct_separated = (\<lambda>xs ys splits degree. r),
      socp = (\<lambda>xs ys splits degree lb ub objective trend h_epsilon quantile solver verbose. r),
      socp_separated =
        (\<lambda>xs ys splits degree lb ub objective trend h_epsilon quantile solver verbose. r),
      qp = (\<lambda>xs ys splits degree lb ub trend verbose. r),
      qp_separated = (\<lambda>xs ys splits degree lb ub trend verbose. r)\<rparr>"

text \<open>The default instance: \<open>RobustPWRegression()\<close>.\<close>

definition default_estimator :: estimator where
  "default_estimator =
     init (PStr ''l2'') (PInt 1) (PBool True) PNone (PStr ''auto'') (PFloat 1.35) (PFloat 0.5)
       (PBool False)"

text \<open>
  Right-open binning in the specification's words: of the \<open>length splits + 1\<close>
  segments, segment \<open>k\<close> begins at \<open>splits[k-1]\<close> (inclusive) and ends at \<open>splits[k]\<close>
  (exclusive); the first segment has no lower end and the last no upper end.
\<close>

definition in_segment :: "real list \<Rightarrow> real \<Rightarrow> nat \<Rightarrow> bool" where
  "in_segment splits v k =
     (k \<le> length splits \<and>
      (0 < k \<longrightarrow> splits ! (k - 1) \<le> v) \<and>
      (k < length splits \<longrightarrow> v < splits ! k))"

text \<open>The comparison \<open>a <= b\<close> of two float64 values: false as soon as one is NaN.\<close>

fun fl_le :: "float64 \<Rightarrow> float64 \<Rightarrow> bool" where
  "fl_le NaN b = False"
| "fl_le a NaN = False"
| "fl_le NInf b = True"
| "fl_le a PInf = True"
| "fl_le (Fin a) (Fin b) = (a \<le> b)"
| "fl_le (Fin a) NInf = False"
| "fl_le PInf (Fin b) = False"
| "fl_le PInf NInf = False"

text \<open>
  The value at \<open>v\<close> of the polynomial with the coefficients \<open>cs\<close>, in ascending
  powers as a row of the coefficient table has them.
\<close>

definition poly_value :: "real list \<Rightarrow> real \<Rightarrow> real" where
  "poly_value cs v = (\<Sum>i<length cs. cs ! i * v ^ i)"

section \<open>Facts about validation\<close>

lemma py_eq_PStr [simp]: "py_eq v (PStr s) \<longleftrightarrow> v = PStr s"
  by (cases v) (auto simp: py_eq_def)

lemma py_in_iff: "py_in v xs \<longleftrightarrow> (\<exists>s \<in> set xs. v = PStr s)"
  by (simp add: py_in_def list_ex_iff)

lemma is_bool_iff: "is_bool v \<longleftrightarrow> (\<exists>b. v = PBool b)"
  by (cases v) auto

lemmas std_params = check_parameters_def py_in_def py_eq_def num_sat_def is_number_def

text \<open>What a parameter set that passes validation looks like.\<close>

lemma check_parameters_solver:
  assumes "check_parameters ob dg ct mt sv he qu vb = Inr ()"
  obtains b name where "ct = PBool b" and "sv = PStr name"
    and "name = ''auto'' \<or> name = ''ecos'' \<or> name = ''osqp'' \<or> name = ''direct''"
proof -
  from assms have "is_bool ct" and "py_in sv [''auto'', ''ecos'', ''osqp'', ''direct'']"
    by (simp_all add: check_parameters_def split: if_splits)
  then show thesis
    using that by (auto simp: py_in_iff is_bool_iff)
qed

lemma check_parameters_trend:
  assumes "check_parameters ob dg ct mt sv he qu vb = Inr ()"
  shows "mt = PNone \<or> py_in mt [''ascending'', ''descending'', ''convex'', ''concave'']"
  using assms by (simp add: check_parameters_def split: if_splits)

lemma check_parameters_two_sided:
  assumes "check_parameters ob dg ct mt sv he qu vb = Inr ()"
  shows "mt \<noteq> PStr ''valley'' \<and> mt \<noteq> PStr ''peak''"
  using check_parameters_trend[OF assms] by (auto simp: py_in_iff)

lemma check_parameters_convex:
  assumes "check_parameters ob dg ct mt sv he qu vb = Inr ()"
    and "mt = PStr ''convex'' \<or> mt = PStr ''concave''"
  shows "py_eq dg (PInt 1) \<and> ct = PBool True"
proof -
  from assms(2) have "mt \<noteq> PNone" and "py_in mt [''convex'', ''concave'']"
    by (auto simp: py_in_iff)
  with assms(1) have "py_eq dg (PInt 1)" and "truthy ct" and "is_bool ct"
    by (simp_all add: check_parameters_def split: if_splits)
  then show ?thesis by (auto simp: is_bool_iff)
qed

lemma check_parameters_error_kind:
  "check_parameters ob dg ct mt sv he qu vb = Inl e \<Longrightarrow> config_error e"
  by (auto simp: check_parameters_def split: if_splits)

section \<open>Facts about fit\<close>

lemma fit_invalid_parameters:
  assumes "check_parameters (objective self) (degree self) (continuous' self)
             (monotonic_trend self) (solver self) (h_epsilon self) (quantile self)
             (verbose self) = Inl e"
  shows "fit S self x y splits lb ub = (Inl e, self)"
  using assms by (simp add: fit_def)

lemma fit_Inl:
  "fit S self x y splits lb ub = (Inl e, self') \<Longrightarrow> self' = self"
  by (auto simp: fit_def Let_def split: sum.splits if_splits)

lemma fit_Inr:
  "fit S self x y splits lb ub = (Inr u, self') \<Longrightarrow>
   \<exists>c method xs ys. run_method S self method xs ys splits lb ub = Inr c \<and>
     self' = self\<lparr>coef := Some c, splits_attr := Some splits, is_fitted := True\<rparr>"
  by (auto simp: fit_def Let_def split: sum.splits if_splits)

section \<open>The method selector\<close>

lemma table_row:
  assumes nm: "name = ''auto'' \<or> name = ''ecos'' \<or> name = ''osqp'' \<or> name = ''direct''"
  shows "case selector_table name (ob = PStr ''l2'') (mt \<noteq> PNone) bounded b of
      None \<Rightarrow> False
    | Some HardError \<Rightarrow>
        (\<exists>msg. choose_method ob dg (PBool b) mt (PStr name) bounded = Inl (ValueError msg))
    | Some (Use f k) \<Rightarrow>
        choose_method ob dg (PBool b) mt (PStr name) bounded = Inr (Some (tag_of f k))"
  using nm
proof (elim disjE)
  assume "name = ''auto''"
  then show ?thesis by (cases b) (simp_all add: choose_method_def selector_table_def)
next
  assume "name = ''ecos''"
  then show ?thesis by (cases b) (simp_all add: choose_method_def selector_table_def)
next
  assume "name = ''osqp''"
  then show ?thesis by (cases b) (simp_all add: choose_method_def selector_table_def)
next
  assume "name = ''direct''"
  then show ?thesis by (cases b) (simp_all add: choose_method_def selector_table_def)
qed

lemma tag_of_canonical: "tag_of f k \<in> set canonical_tags"
  by (cases f; cases k) (simp_all add: canonical_tags_def)

text \<open>
  C1. On every parameter combination that passes \<open>_check_parameters\<close>, and for either
  value of \<open>bounded\<close>, the decision table of the specification has a row, and
  \<open>_choose_method\<close> does what that row says: it raises a \<open>ValueError\<close> where the row is
  a hard error, and returns the tag of the row's formulation, one of the six canonical
  tags, otherwise. In particular it never falls through to \<open>None\<close>.
\<close>

theorem choose_method_agrees_with_table:
  assumes "check_parameters ob dg ct mt sv he qu vb = Inr ()"
  shows "\<exists>name. sv = PStr name \<and>
           (case selector_table name (ob = PStr ''l2'') (mt \<noteq> PNone) bounded (ct = PBool True) of
              None \<Rightarrow> False
            | Some HardError \<Rightarrow>
                (\<exists>msg. choose_method ob dg ct mt sv bounded = Inl (ValueError msg))
            | Some (Use f k) \<Rightarrow>
                choose_method ob dg ct mt sv bounded = Inr (Some (tag_of f k)) \<and>
                tag_of f k \<in> set canonical_tags)"
proof -
  from assms obtain b name where ct: "ct = PBool b" and sv: "sv = PStr name"
    and nm: "name = ''auto'' \<or> name = ''ecos'' \<or> name = ''osqp'' \<or> name = ''direct''"
    by (rule check_parameters_solver)
  have b: "(ct = PBool True) = b" using ct by simp
  have "case selector_table name (ob = PStr ''l2'') (mt \<noteq> PNone) bounded b of
      None \<Rightarrow> False
    | Some HardError \<Rightarrow>
        (\<exists>msg. choose_method ob dg (PBool b) mt (PStr name) bounded = Inl (ValueError msg))
    | Some (Use f k) \<Rightarrow>
        choose_method ob dg (PBool b) mt (PStr name) bounded = Inr (Some (tag_of f k))"
    by (rule table_row[OF nm])
  then show ?thesis
    unfolding b ct sv
    by (auto simp: tag_of_canonical split: option.splits outcome.splits)
qed

theorem choose_method_agrees_with_table_witness:
  "check_parameters (PStr ''huber'') (PInt 2) (PBool False) (PStr ''ascending'') (PStr ''auto'')
     (PFloat 1.35) (PFloat 0.5) (PBool False) = Inr () \<and>
   choose_method (PStr ''huber'') (PInt 2) (PBool False) (PStr ''ascending'') (PStr ''auto'') False
     = Inr (Some ''socp_separated'')"
proof -
  have ok: "check_parameters (PStr ''huber'') (PInt 2) (PBool False) (PStr ''ascending'')
     (PStr ''auto'') (PFloat 1.35) (PFloat 0.5) (PBool False) = Inr ()"
    by (simp add: std_params)
  from choose_method_agrees_with_table[OF ok, of False] ok show ?thesis
    by (simp add: selector_table_def)
qed

text \<open>
  C2, as the specification states it, fails: with \<open>solver="osqp"\<close> and
  \<open>objective="l2"\<close> the selector returns \<open>"qp"\<close> although the fit is bounded. The
  \<open>osqp\<close> branch does not look at \<open>bounded\<close>, and \<open>fit\<close> passes \<open>lb\<close> and \<open>ub\<close> on to
  \<open>qp\<close>.
\<close>

theorem choose_method_bounded_osqp_counterexample:
  "check_parameters (PStr ''l2'') (PInt 1) (PBool True) PNone (PStr ''osqp'')
     (PFloat 1.35) (PFloat 0.5) (PBool False) = Inr () \<and>
   choose_method (PStr ''l2'') (PInt 1) (PBool True) PNone (PStr ''osqp'') True = Inr (Some ''qp'')"
  by (simp add: std_params choose_method_def)

text \<open>
  C2, amended. For validated parameters and a bounded fit, \<open>_choose_method\<close> returns
  \<open>"qp"\<close> or \<open>"qp_separated"\<close> exactly when \<open>solver="osqp"\<close> and \<open>objective="l2"\<close>;
  with the solvers \<open>"auto"\<close>, \<open>"ecos"\<close> and \<open>"direct"\<close> a bounded fit is never routed to
  the quadratic program.
\<close>

theorem choose_method_bounded_qp_iff:
  assumes "check_parameters ob dg ct mt sv he qu vb = Inr ()"
  shows "choose_method ob dg ct mt sv True \<in> {Inr (Some ''qp''), Inr (Some ''qp_separated'')}
         \<longleftrightarrow> sv = PStr ''osqp'' \<and> ob = PStr ''l2''"
proof -
  from assms obtain b name where ct: "ct = PBool b" and sv: "sv = PStr name"
    and nm: "name = ''auto'' \<or> name = ''ecos'' \<or> name = ''osqp'' \<or> name = ''direct''"
    by (rule check_parameters_solver)
  from nm show ?thesis
    by (elim disjE) (simp_all add: ct sv choose_method_def)
qed

theorem choose_method_bounded_qp_iff_witness:
  "choose_method (PStr ''l2'') (PInt 1) (PBool False) PNone (PStr ''osqp'') True
     = Inr (Some ''qp_separated'') \<and>
   choose_method (PStr ''l2'') (PInt 1) (PBool False) PNone (PStr ''auto'') True
     \<notin> {Inr (Some ''qp''), Inr (Some ''qp_separated'')}"
proof -
  have ok: "check_parameters (PStr ''l2'') (PInt 1) (PBool False) PNone (PStr ''auto'')
     (PFloat 1.35) (PFloat 0.5) (PBool False) = Inr ()"
    by (simp add: std_params)
  have "choose_method (PStr ''l2'') (PInt 1) (PBool False) PNone (PStr ''osqp'') True
     = Inr (Some ''qp_separated'')"
    by (simp add: choose_method_def)
  moreover have "choose_method (PStr ''l2'') (PInt 1) (PBool False) PNone (PStr ''auto'') True
     \<notin> {Inr (Some ''qp''), Inr (Some ''qp_separated'')}"
    using choose_method_bounded_qp_iff[OF ok] by simp
  ultimately show ?thesis by simp
qed

section \<open>Splits are checked, then stored as passed\<close>

lemma take_idx_argsort: "take_idx a (argsort a) = map fst (sort_key fst (zip a [0..<length a]))"
proof -
  have "\<forall>p \<in> set (sort_key fst (zip a [0..<length a])). a ! snd p = fst p"
    by (auto simp: set_zip)
  then show ?thesis
    by (simp add: take_idx_def argsort_def)
qed

lemma take_idx_argsort_sorted: "sorted (take_idx a (argsort a))"
  by (simp add: take_idx_argsort)

lemma take_idx_argsort_set: "set (take_idx a (argsort a)) = set a"
proof -
  have m: "map fst (zip a [0..<length a]) = a" by simp
  have "set (take_idx a (argsort a)) = fst ` set (zip a [0..<length a])"
    by (simp add: take_idx_argsort)
  also have "\<dots> = set (map fst (zip a [0..<length a]))" by (simp only: set_map)
  also have "\<dots> = set a" by (simp only: m)
  finally show ?thesis .
qed

lemma take_idx_argsort_length: "length (take_idx a (argsort a)) = length a"
  by (simp add: take_idx_argsort)

text \<open>\<open>_check_splits\<close> itself returns the splits in strictly ascending order.\<close>

lemma check_splits_sorted:
  assumes "check_splits splits = Inr us"
  shows "sorted_wrt (<) us" and "set us = set splits" and "splits \<noteq> []" and "distinct splits"
proof -
  from assms have ne: "splits \<noteq> []" and card: "card (set splits) = length splits"
    and us: "us = take_idx splits (argsort splits)"
    by (auto simp: check_splits_def check_array_def Let_def split: if_splits)
  show "splits \<noteq> []" by (rule ne)
  show "distinct splits" using card by (rule card_distinct)
  show set: "set us = set splits" by (simp add: us take_idx_argsort_set)
  have "card (set us) = length us"
    by (simp add: set card) (simp add: us take_idx_argsort_length)
  then have "distinct us" by (rule card_distinct)
  moreover have "sorted us" by (simp add: us take_idx_argsort_sorted)
  ultimately show "sorted_wrt (<) us" by (simp add: strict_sorted_iff)
qed

text \<open>
  C3. The claim is that the splits \<open>fit\<close> uses and stores are sorted. \<open>_check_splits\<close>
  does sort them (\<open>check_splits_sorted\<close>), but \<open>fit\<close> drops what it returns: a successful
  \<open>fit\<close> stores the \<open>splits\<close> argument itself, in the caller's order, and passes the same
  argument to the solver.
\<close>

theorem fit_stores_splits_as_passed:
  assumes "fit S self x y splits lb ub = (Inr u, self')"
  shows "splits_attr self' = Some splits"
  using fit_Inr[OF assms] by auto

theorem fit_stores_splits_as_passed_witness:
  "fst (fit (const_solvers (Inr [[0, 1], [7, 1], [9, 1]])) default_estimator
         [1, 2] [1, 2] [3, 1] PNone PNone) = Inr () \<and>
   splits_attr (snd (fit (const_solvers (Inr [[0, 1], [7, 1], [9, 1]])) default_estimator
         [1, 2] [1, 2] [3, 1] PNone PNone)) = Some [3, 1] \<and>
   \<not> sorted [3, 1 :: real] \<and>
   check_splits [3, 1] = Inr [1, 3]"
proof -
  let ?r = "fit (const_solvers (Inr [[0, 1], [7, 1], [9, 1]])) default_estimator
         [1, 2] [1, 2] [3, 1] PNone PNone"
  have ok: "fst ?r = Inr ()"
    by (simp add: fit_def default_estimator_def init_def std_params check_array_def
        check_splits_def choose_method_def run_method_def const_solvers_def Let_def)
  then have "?r = (Inr (), snd ?r)" by (metis prod.collapse)
  then have "splits_attr (snd ?r) = Some [3, 1]" by (rule fit_stores_splits_as_passed)
  moreover have "check_splits [3, 1] = Inr [1, 3]"
    by (simp add: check_splits_def check_array_def argsort_def take_idx_def)
  ultimately show ?thesis using ok by simp
qed

section \<open>Failing fits\<close>

text \<open>
  C4. A call of \<open>fit\<close> that raises leaves the instance exactly as it was, whichever step
  raised; a call that returns has changed \<open>coef_\<close>, \<open>_splits\<close> and \<open>_is_fitted\<close> and
  nothing else, and the new \<open>coef_\<close> is what the selected solver returned.
\<close>

theorem fit_atomic:
  "case fit S self x y splits lb ub of
     (Inl e, self') \<Rightarrow> self' = self
   | (Inr u, self') \<Rightarrow>
       (\<exists>c method xs ys. run_method S self method xs ys splits lb ub = Inr c \<and>
          self' = self\<lparr>coef := Some c, splits_attr := Some splits, is_fitted := True\<rparr>)"
proof (cases "fit S self x y splits lb ub")
  case (Pair r self')
  show ?thesis
  proof (cases r)
    case (Inl e)
    with Pair have "self' = self" by (auto dest: fit_Inl)
    then show ?thesis using Pair Inl by simp
  next
    case (Inr u)
    from fit_Inr[OF Pair[unfolded Inr]] show ?thesis using Pair Inr by simp
  qed
qed

theorem fit_atomic_witness:
  "fst (fit (const_solvers (Inl (SolverError ''infeasible'')))
          (default_estimator\<lparr>coef := Some [[0, 1], [7, 1]], splits_attr := Some [3.5],
             is_fitted := True\<rparr>)
          [1, 2] [1, 2] [1.5] PNone PNone) = Inl (SolverError ''infeasible'') \<and>
   snd (fit (const_solvers (Inl (SolverError ''infeasible'')))
          (default_estimator\<lparr>coef := Some [[0, 1], [7, 1]], splits_attr := Some [3.5],
             is_fitted := True\<rparr>)
          [1, 2] [1, 2] [1.5] PNone PNone)
     = default_estimator\<lparr>coef := Some [[0, 1], [7, 1]], splits_attr := Some [3.5],
         is_fitted := True\<rparr>"
proof -
  let ?self = "default_estimator\<lparr>coef := Some [[0, 1], [7, 1]], splits_attr := Some [3.5],
             is_fitted := True\<rparr>"
  let ?r = "fit (const_solvers (Inl (SolverError ''infeasible''))) ?self
              [1, 2] [1, 2] [1.5] PNone PNone"
  have raised: "fst ?r = Inl (SolverError ''infeasible'')"
    by (simp add: fit_def default_estimator_def init_def std_params check_array_def
        check_splits_def choose_method_def run_method_def const_solvers_def Let_def)
  have "case ?r of
     (Inl e, self') \<Rightarrow> self' = ?self
   | (Inr u, self') \<Rightarrow>
       (\<exists>c method xs ys. run_method (const_solvers (Inl (SolverError ''infeasible''))) ?self
            method xs ys [1.5] PNone PNone = Inr c \<and>
          self' = ?self\<lparr>coef := Some c, splits_attr := Some [1.5], is_fitted := True\<rparr>)"
    by (rule fit_atomic)
  with raised have "snd ?r = ?self"
    by (cases ?r) simp
  with raised show ?thesis by simp
qed

text \<open>
  C8. With \<open>monotonic_trend\<close> "convex" or "concave", \<open>fit\<close> raises a configuration error
  whenever \<open>degree\<close> does not equal 1 or \<open>continuous\<close> is not \<open>True\<close>. The error comes
  from the parameter validation: it is the same whatever the data, the splits, the bounds
  and the solvers are, and the instance is unchanged.
\<close>

theorem fit_rejects_convex_concave:
  assumes "monotonic_trend self = PStr ''convex'' \<or> monotonic_trend self = PStr ''concave''"
    and "\<not> py_eq (degree self) (PInt 1) \<or> continuous' self \<noteq> PBool True"
  shows "\<exists>e. config_error e \<and>
           (\<forall>S x y splits lb ub. fit S self x y splits lb ub = (Inl e, self))"
proof (cases "check_parameters (objective self) (degree self) (continuous' self)
             (monotonic_trend self) (solver self) (h_epsilon self) (quantile self)
             (verbose self)")
  case (Inl e)
  then show ?thesis
    using check_parameters_error_kind[OF Inl] fit_invalid_parameters[OF Inl] by blast
next
  case (Inr u)
  then show ?thesis
    using check_parameters_convex assms by (cases u) blast
qed

theorem fit_rejects_convex_concave_witness:
  "fit (const_solvers (Inr [[0, 1], [7, 1]]))
       (default_estimator\<lparr>degree := PInt 2, monotonic_trend := PStr ''convex''\<rparr>)
       [1, 2] [1, 2] [1.5] PNone PNone
     = (Inl (ValueError ''convex and concave valid if degree = 1.''),
        default_estimator\<lparr>degree := PInt 2, monotonic_trend := PStr ''convex''\<rparr>) \<and>
   fst (fit (const_solvers (Inr [[0, 1], [7, 1]]))
       (default_estimator\<lparr>monotonic_trend := PStr ''convex''\<rparr>)
       [1, 2] [1, 2] [1.5] PNone PNone) = Inr ()"
proof -
  let ?self = "default_estimator\<lparr>degree := PInt 2, monotonic_trend := PStr ''convex''\<rparr>"
  have "monotonic_trend ?self = PStr ''convex'' \<or> monotonic_trend ?self = PStr ''concave''"
    by simp
  moreover have "\<not> py_eq (degree ?self) (PInt 1) \<or> continuous' ?self \<noteq> PBool True"
    by (simp add: py_eq_def)
  ultimately obtain e where
    e: "\<forall>S x y splits lb ub. fit S ?self x y splits lb ub = (Inl e, ?self)"
    using fit_rejects_convex_concave by blast
  have "fst (fit (const_solvers (Inr [[0, 1], [7, 1]])) ?self [1, 2] [1, 2] [1.5] PNone PNone)
          = Inl (ValueError ''convex and concave valid if degree = 1.'')"
    by (simp add: fit_def default_estimator_def init_def std_params)
  with e have "fit (const_solvers (Inr [[0, 1], [7, 1]])) ?self [1, 2] [1, 2] [1.5] PNone PNone
     = (Inl (ValueError ''convex and concave valid if degree = 1.''), ?self)"
    by simp
  moreover have "fst (fit (const_solvers (Inr [[0, 1], [7, 1]]))
       (default_estimator\<lparr>monotonic_trend := PStr ''convex''\<rparr>)
       [1, 2] [1, 2] [1.5] PNone PNone) = Inr ()"
    by (simp add: fit_def default_estimator_def init_def std_params check_array_def
        check_splits_def choose_method_def run_method_def const_solvers_def Let_def)
  ultimately show ?thesis by simp
qed

text \<open>
  C10. The constraint layer builds the two-sided shapes, but no fit reaches it with
  one: with \<open>monotonic_trend\<close> "valley" or "peak", \<open>fit\<close> raises a configuration error
  out of the parameter validation, whatever the data and the solvers are, and leaves the
  instance unchanged.
\<close>

theorem fit_rejects_two_sided:
  assumes "monotonic_trend self = PStr ''valley'' \<or> monotonic_trend self = PStr ''peak''"
  shows "(\<exists>e. config_error e \<and>
            (\<forall>S x y splits lb ub. fit S self x y splits lb ub = (Inl e, self))) \<and>
         (\<exists>cs. monotonic_trend_constraints (monotonic_trend self) c D t = Several cs)"
proof
  show "\<exists>e. config_error e \<and> (\<forall>S x y splits lb ub. fit S self x y splits lb ub = (Inl e, self))"
  proof (cases "check_parameters (objective self) (degree self) (continuous' self)
             (monotonic_trend self) (solver self) (h_epsilon self) (quantile self)
             (verbose self)")
    case (Inl e)
    then show ?thesis
      using check_parameters_error_kind[OF Inl] fit_invalid_parameters[OF Inl] by blast
  next
    case (Inr u)
    then show ?thesis
      using check_parameters_two_sided assms by (cases u) blast
  qed
  from assms show "\<exists>cs. monotonic_trend_constraints (monotonic_trend self) c D t = Several cs"
    by (auto simp: monotonic_trend_constraints_def py_in_iff)
qed

theorem fit_rejects_two_sided_witness:
  "fit (const_solvers (Inr [[0, 1], [7, 1]]))
       (default_estimator\<lparr>monotonic_trend := PStr ''valley''\<rparr>)
       [1, 2] [1, 2] [1.5] PNone PNone
     = (Inl (ValueError ''Invalid value for monotonic trend.''),
        default_estimator\<lparr>monotonic_trend := PStr ''valley''\<rparr>)"
proof -
  let ?self = "default_estimator\<lparr>monotonic_trend := PStr ''valley''\<rparr>"
  have "monotonic_trend ?self = PStr ''valley'' \<or> monotonic_trend ?self = PStr ''peak''"
    by simp
  then obtain e where
    e: "\<forall>S x y splits lb ub. fit S ?self x y splits lb ub = (Inl e, ?self)"
    using fit_rejects_two_sided[where c = "()" and D = "[]" and t = None] by blast
  have "fst (fit (const_solvers (Inr [[0, 1], [7, 1]])) ?self [1, 2] [1, 2] [1.5] PNone PNone)
          = Inl (ValueError ''Invalid value for monotonic trend.'')"
    by (simp add: fit_def default_estimator_def init_def std_params)
  with e show ?thesis by simp
qed

section \<open>Prediction before any successful fit\<close>

lemma fit_all_failed:
  "list_all isl (fst (fit_all S self calls)) \<Longrightarrow> snd (fit_all S self calls) = self"
proof (induction calls arbitrary: self)
  case Nil
  then show ?case by simp
next
  case (Cons call calls)
  obtain x y splits lb ub where call: "call = (x, y, splits, lb, ub)"
    by (cases call) auto
  obtain r self1 where r: "fit S self x y splits lb ub = (r, self1)"
    by (cases "fit S self x y splits lb ub") auto
  obtain rs self2 where rest: "fit_all S self1 calls = (rs, self2)"
    by (cases "fit_all S self1 calls") auto
  from Cons.prems have "isl r" and failed: "list_all isl (fst (fit_all S self1 calls))"
    by (simp_all add: call r rest)
  then obtain e where "r = Inl e" by (cases r) auto
  with r have same: "self1 = self" by (auto dest: fit_Inl)
  from Cons.IH[OF failed] have "self2 = self1" by (simp add: rest)
  moreover have "snd (fit_all S self (call # calls)) = self2"
    by (simp add: call r rest)
  ultimately show ?case using same by simp
qed

text \<open>
  C9. Take a fresh instance and any sequence of \<open>fit\<close> calls on it, every one of which
  raised. Then \<open>predict\<close>, with any arguments, raises \<open>NotFittedError\<close> and returns no
  predictions.
\<close>

theorem predict_before_fit:
  assumes "list_all isl (fst (fit_all S (init ob dg ct mt sv he qu vb) calls))"
  shows "predict (snd (fit_all S (init ob dg ct mt sv he qu vb) calls)) x lb ub
         = Inl NotFittedError"
proof -
  have "snd (fit_all S (init ob dg ct mt sv he qu vb) calls) = init ob dg ct mt sv he qu vb"
    using assms by (rule fit_all_failed)
  then show ?thesis by (simp add: predict_def init_def)
qed

theorem predict_before_fit_witness:
  "fst (fit_all (const_solvers (Inr [[0, 1], [7, 1]])) default_estimator
          [([], [], [2], PNone, PNone), ([1, 2], [1, 2], [2], PFloat 2, PFloat 1)])
     = [Inl (ValueError ''Found array with 0 sample(s).''), Inl (ValueError ''lb must be <= ub.'')] \<and>
   predict (snd (fit_all (const_solvers (Inr [[0, 1], [7, 1]])) default_estimator
          [([], [], [2], PNone, PNone), ([1, 2], [1, 2], [2], PFloat 2, PFloat 1)]))
      [Fin 1, Fin 2] PNone PNone = Inl NotFittedError"
proof -
  let ?calls = "[([], [], [2], PNone, PNone), ([1, 2], [1, 2], [2], PFloat 2, PFloat 1)]"
  have f1: "fit (const_solvers (Inr [[0, 1], [7, 1]])) default_estimator [] [] [2] PNone PNone
      = (Inl (ValueError ''Found array with 0 sample(s).''), default_estimator)"
    by (simp add: fit_def default_estimator_def init_def std_params check_array_def)
  have f2: "fit (const_solvers (Inr [[0, 1], [7, 1]])) default_estimator [1, 2] [1, 2] [2]
        (PFloat 2) (PFloat 1)
      = (Inl (ValueError ''lb must be <= ub.''), default_estimator)"
    by (simp add: fit_def default_estimator_def init_def std_params check_array_def
        check_splits_def check_bounds_def py_gt_def Let_def)
  have rs: "fst (fit_all (const_solvers (Inr [[0, 1], [7, 1]])) default_estimator ?calls)
     = [Inl (ValueError ''Found array with 0 sample(s).''), Inl (ValueError ''lb must be <= ub.'')]"
    by (simp add: f1 f2)
  then have "list_all isl (fst (fit_all (const_solvers (Inr [[0, 1], [7, 1]]))
       (init (PStr ''l2'') (PInt 1) (PBool True) PNone (PStr ''auto'') (PFloat 1.35) (PFloat 0.5)
          (PBool False)) ?calls))"
    by (simp add: default_estimator_def)
  then have "predict (snd (fit_all (const_solvers (Inr [[0, 1], [7, 1]]))
       (init (PStr ''l2'') (PInt 1) (PBool True) PNone (PStr ''auto'') (PFloat 1.35) (PFloat 0.5)
          (PBool False)) ?calls)) [Fin 1, Fin 2] PNone PNone = Inl NotFittedError"
    by (rule predict_before_fit)
  with rs show ?thesis by (simp add: default_estimator_def)
qed

section \<open>Shape constraints\<close>

lemma list_all_take_nth:
  "k \<le> length D \<Longrightarrow> list_all P (take k D) \<longleftrightarrow> (\<forall>i<k. P (D ! i))"
  by (simp add: list_all_length)

lemma list_all_drop_nth:
  "list_all P (drop k D) \<longleftrightarrow> (\<forall>i<length D. k \<le> i \<longrightarrow> P (D ! i))"
proof
  assume l: "list_all P (drop k D)"
  show "\<forall>i<length D. k \<le> i \<longrightarrow> P (D ! i)"
  proof (intro allI impI)
    fix i assume i: "i < length D" "k \<le> i"
    then have "i - k < length (drop k D)" by simp
    with l have "P (drop k D ! (i - k))" by (simp add: list_all_length)
    with i show "P (D ! i)" by simp
  qed
next
  assume "\<forall>i<length D. k \<le> i \<longrightarrow> P (D ! i)"
  then show "list_all P (drop k D)"
    by (simp add: list_all_length)
qed

text \<open>
  C7. The one-sided trends give a single inequality over all of \<open>D\<close>: \<open>D c \<ge> 0\<close> for
  "ascending" and "convex", \<open>D c \<le> 0\<close> for "descending" and "concave". The two-sided
  trends give two inequalities of opposite sign, over the rows before the pivot \<open>t\<close> and
  over the rows from \<open>t\<close> on: "valley" is \<open>\<le> 0\<close> then \<open>\<ge> 0\<close>, "peak" is \<open>\<ge> 0\<close> then
  \<open>\<le> 0\<close>. For a pivot \<open>k\<close> within \<open>D\<close> the two blocks are a partition of the rows of
  \<open>D\<close>, so a vector satisfies the "valley" constraints exactly when every row below \<open>k\<close>
  is non-positive on it and every row from \<open>k\<close> on is non-negative (and the reverse for
  "peak").
\<close>

theorem monotonic_trend_constraints_shapes:
  "monotonic_trend_constraints (PStr ''ascending'') c D t = Single (Geq0 D c) \<and>
   monotonic_trend_constraints (PStr ''convex'') c D t = Single (Geq0 D c) \<and>
   monotonic_trend_constraints (PStr ''descending'') c D t = Single (Leq0 D c) \<and>
   monotonic_trend_constraints (PStr ''concave'') c D t = Single (Leq0 D c) \<and>
   monotonic_trend_constraints (PStr ''valley'') c D t
     = Several [Leq0 (rows_to D t) c, Geq0 (rows_from D t) c] \<and>
   monotonic_trend_constraints (PStr ''peak'') c D t
     = Several [Geq0 (rows_to D t) c, Leq0 (rows_from D t) c] \<and>
   (k \<le> length D \<longrightarrow>
      rows_to D (Some (int k)) @ rows_from D (Some (int k)) = D \<and>
      length (rows_to D (Some (int k))) = k \<and>
      (holds val (Leq0 (rows_to D (Some (int k))) c) \<and>
       holds val (Geq0 (rows_from D (Some (int k))) c)
         \<longleftrightarrow> (\<forall>i<length D. if i < k then dot (D ! i) (val c) \<le> 0
                               else 0 \<le> dot (D ! i) (val c))) \<and>
      (holds val (Geq0 (rows_to D (Some (int k))) c) \<and>
       holds val (Leq0 (rows_from D (Some (int k))) c)
         \<longleftrightarrow> (\<forall>i<length D. if i < k then 0 \<le> dot (D ! i) (val c)
                               else dot (D ! i) (val c) \<le> 0)))"
proof -
  have tags: "monotonic_trend_constraints (PStr ''ascending'') c D t = Single (Geq0 D c)"
    "monotonic_trend_constraints (PStr ''convex'') c D t = Single (Geq0 D c)"
    "monotonic_trend_constraints (PStr ''descending'') c D t = Single (Leq0 D c)"
    "monotonic_trend_constraints (PStr ''concave'') c D t = Single (Leq0 D c)"
    "monotonic_trend_constraints (PStr ''valley'') c D t
       = Several [Leq0 (rows_to D t) c, Geq0 (rows_from D t) c]"
    "monotonic_trend_constraints (PStr ''peak'') c D t
       = Several [Geq0 (rows_to D t) c, Leq0 (rows_from D t) c]"
    by (simp_all add: monotonic_trend_constraints_def py_in_def)
  have sem: "rows_to D (Some (int k)) @ rows_from D (Some (int k)) = D \<and>
      length (rows_to D (Some (int k))) = k \<and>
      (holds val (Leq0 (rows_to D (Some (int k))) c) \<and>
       holds val (Geq0 (rows_from D (Some (int k))) c)
         \<longleftrightarrow> (\<forall>i<length D. if i < k then dot (D ! i) (val c) \<le> 0
                               else 0 \<le> dot (D ! i) (val c))) \<and>
      (holds val (Geq0 (rows_to D (Some (int k))) c) \<and>
       holds val (Leq0 (rows_from D (Some (int k))) c)
         \<longleftrightarrow> (\<forall>i<length D. if i < k then 0 \<le> dot (D ! i) (val c)
                               else dot (D ! i) (val c) \<le> 0))" if k: "k \<le> length D"
  proof -
    have r_to: "rows_to D (Some (int k)) = take k D" and r_from: "rows_from D (Some (int k)) = drop k D"
      by (simp_all add: rows_to_def rows_from_def)
    have below: "i < k \<Longrightarrow> i < length D" for i using k by simp
    show ?thesis
      unfolding r_to r_from holds.simps list_all_take_nth[OF k] list_all_drop_nth
      using k below by (auto simp: not_less)
  qed
  from tags sem show ?thesis by blast
qed

theorem monotonic_trend_constraints_shapes_witness:
  "monotonic_trend_constraints (PStr ''valley'') () [[1, 0], [0, 1], [1, 1]] (Some 1)
     = Several [Leq0 [[1, 0]] (), Geq0 [[0, 1], [1, 1]] ()] \<and>
   holds (\<lambda>u. [-1, 2]) (Leq0 [[1, 0]] ()) \<and>
   holds (\<lambda>u. [-1, 2]) (Geq0 [[0, 1], [1, 1]] ())"
proof -
  have k: "1 \<le> length [[1, 0], [0, 1], [1, 1 :: real]]" by simp
  have r: "rows_to [[1, 0], [0, 1], [1, 1 :: real]] (Some 1) = [[1, 0]]"
    "rows_from [[1, 0], [0, 1], [1, 1 :: real]] (Some 1) = [[0, 1], [1, 1]]"
    by (simp_all add: rows_to_def rows_from_def)
  have "\<forall>i<length [[1, 0], [0, 1], [1, 1 :: real]].
          if i < 1 then dot ([[1, 0], [0, 1], [1, 1]] ! i) [-1, 2] \<le> 0
          else 0 \<le> dot ([[1, 0], [0, 1], [1, 1]] ! i) [-1, 2]"
    by (simp add: dot_def less_Suc_eq numeral_3_eq_3)
  with monotonic_trend_constraints_shapes[of "()" "[[1, 0], [0, 1], [1, 1]]" "Some 1" 1
      "\<lambda>u. [-1, 2]"] k
  show ?thesis by (simp add: r)
qed

section \<open>Prediction\<close>

lemma searchsorted_right_le: "searchsorted_right a v \<le> length a"
  by (simp add: searchsorted_right_def length_takeWhile_le)

lemma searchsorted_right_below:
  assumes "i < searchsorted_right a (Fin v)"
  shows "a ! i \<le> v"
proof -
  let ?t = "takeWhile (\<lambda>s. le_sample s (Fin v)) a"
  from assms have "?t ! i \<in> set ?t"
    by (simp add: searchsorted_right_def)
  then have "?t ! i \<le> v"
    by (auto dest: set_takeWhileD)
  moreover have "?t ! i = a ! i"
    using assms by (simp add: searchsorted_right_def takeWhile_nth)
  ultimately show ?thesis by simp
qed

lemma searchsorted_right_above:
  assumes "sorted a" and "searchsorted_right a (Fin v) \<le> i" and "i < length a"
  shows "v < a ! i"
proof -
  let ?k = "searchsorted_right a (Fin v)"
  from assms have k: "?k < length a" by simp
  then have "\<not> le_sample (a ! ?k) (Fin v)"
    unfolding searchsorted_right_def by (rule nth_length_takeWhile)
  moreover from assms have "a ! ?k \<le> a ! i"
    by (simp add: sorted_iff_nth_mono)
  ultimately show ?thesis by simp
qed

lemma searchsorted_right_in_segment:
  assumes "sorted a"
  shows "in_segment a v (searchsorted_right a (Fin v))"
  unfolding in_segment_def
  using searchsorted_right_le[of a "Fin v"]
    searchsorted_right_below[of "searchsorted_right a (Fin v) - 1" a v]
    searchsorted_right_above[OF assms, of v "searchsorted_right a (Fin v)"]
  by auto

lemma in_segment_unique:
  assumes "sorted_wrt (<) a" and "in_segment a v k" and "in_segment a v k'"
  shows "k = k'"
proof -
  have less: "\<not> j < j'" if "in_segment a v j" and "in_segment a v j'" for j j'
  proof
    assume lt: "j < j'"
    from that lt have "v < a ! j" and "a ! (j' - 1) \<le> v" and "j' - 1 < length a"
      by (auto simp: in_segment_def)
    moreover from lt have "j \<le> j' - 1" by simp
    with \<open>j' - 1 < length a\<close> assms(1) have "a ! j \<le> a ! (j' - 1)"
      by (simp add: sorted_iff_nth_mono strict_sorted_iff)
    ultimately show False by simp
  qed
  from less[OF assms(2,3)] less[OF assms(3,2)] show ?thesis by simp
qed

lemma assign_masked_length:
  "length indices = length x \<Longrightarrow> length pred = length x \<Longrightarrow>
   length (assign_masked i row indices x pred) = length x"
  by (simp add: assign_masked_def)

lemma assign_masked_nth:
  "length indices = length x \<Longrightarrow> length pred = length x \<Longrightarrow> j < length x \<Longrightarrow>
   assign_masked i row indices x pred ! j
     = (if indices ! j = i then polyval (rev row) (x ! j) else pred ! j)"
  by (simp add: assign_masked_def)

text \<open>The loop over \<open>range(n)\<close>, by induction on \<open>n\<close>.\<close>

lemma predict_loop_append:
  "predict_loop c indices x (is1 @ is2) pred =
     (case predict_loop c indices x is1 pred of
        Inl e \<Rightarrow> Inl e
      | Inr pred1 \<Rightarrow> predict_loop c indices x is2 pred1)"
  by (induction is1 arbitrary: pred) simp_all

lemma predict_loop_range:
  assumes "length indices = length x" and "length pred = length x" and "n \<le> length c"
  shows "\<exists>out. predict_loop c indices x [0..<n] pred = Inr out \<and> length out = length x \<and>
           (\<forall>j<length x. out ! j
              = (if indices ! j < n then polyval (rev (c ! (indices ! j))) (x ! j)
                 else pred ! j))"
  using assms(3)
proof (induction n)
  case 0
  then show ?case using assms(2) by simp
next
  case (Suc n)
  then obtain out where out: "predict_loop c indices x [0..<n] pred = Inr out"
    and len: "length out = length x"
    and nth: "\<forall>j<length x. out ! j
              = (if indices ! j < n then polyval (rev (c ! (indices ! j))) (x ! j)
                 else pred ! j)"
    by auto
  let ?out = "assign_masked n (c ! n) indices x out"
  from Suc.prems have "predict_loop c indices x [0..<Suc n] pred = Inr ?out"
    by (simp add: predict_loop_append out)
  moreover have "length ?out = length x"
    using assms(1) len by (rule assign_masked_length)
  moreover have "\<forall>j<length x. ?out ! j
              = (if indices ! j < Suc n then polyval (rev (c ! (indices ! j))) (x ! j)
                 else pred ! j)"
    using nth by (auto simp: assign_masked_nth[OF assms(1) len] less_Suc_eq)
  ultimately show ?case by blast
qed

text \<open>The loop returns only if the table has a row for every segment.\<close>

lemma predict_loop_rows:
  "predict_loop c indices x [0..<n] pred = Inr out \<Longrightarrow> n \<le> length c"
proof (induction n arbitrary: out)
  case 0
  then show ?case by simp
next
  case (Suc n)
  from Suc.prems obtain out1 where "predict_loop c indices x [0..<n] pred = Inr out1"
    and "predict_loop c indices x [n] out1 = Inr out"
    by (auto simp: predict_loop_append split: sum.splits)
  then show ?case by (auto split: if_splits)
qed

text \<open>On a finite sample Horner's rule computes the value of the polynomial.\<close>

lemma poly_value_Cons: "poly_value (c # cs) v = c + v * poly_value cs v"
proof -
  have "(\<Sum>i<Suc (length cs). (c # cs) ! i * v ^ i)
          = (c # cs) ! 0 * v ^ 0 + (\<Sum>i<length cs. (c # cs) ! Suc i * v ^ Suc i)"
    by (rule sum.lessThan_Suc_shift)
  also have "\<dots> = c + v * (\<Sum>i<length cs. cs ! i * v ^ i)"
    by (simp add: sum_distrib_left mult_ac)
  finally show ?thesis by (simp add: poly_value_def)
qed

lemma polyval_snoc: "polyval (p @ [c]) v = fl_add (fl_mul (polyval p v) v) (Fin c)"
  by (simp add: polyval_def)

lemma polyval_finite: "polyval (rev cs) (Fin v) = Fin (poly_value cs v)"
proof (induction cs)
  case Nil
  show ?case by (simp add: polyval_def poly_value_def)
next
  case (Cons c cs)
  then show ?case by (simp add: polyval_snoc poly_value_Cons mult_ac)
qed

text \<open>
  With stored splits in strictly ascending order and a table with a row per segment,
  \<open>predict\<close> does what right-open binning asks: the prediction for a finite sample is
  the value of the polynomial of the one segment that contains it.
\<close>

lemma predict_sorted_splits:
  assumes "is_fitted self" and "splits_attr self = Some splits" and "coef self = Some c"
    and "sorted_wrt (<) splits" and "length splits + 1 \<le> length c"
  shows "\<exists>raw. predict self x PNone PNone = Inr raw \<and>
           length raw = length x \<and>
           (\<forall>j<length x. \<forall>v. x ! j = Fin v \<longrightarrow>
              (\<exists>k. in_segment splits v k \<and>
                 (\<forall>k'. in_segment splits v k' \<longrightarrow> k' = k) \<and>
                 raw ! j = Fin (poly_value (c ! k) v)))"
proof -
  let ?indices = "map (searchsorted_right splits) x"
  let ?pred0 = "replicate (length x) (Fin 0)"
  from assms(4) have sorted: "sorted splits" by (simp add: strict_sorted_iff)
  have dig: "digitize x splits = Inr ?indices"
    using sorted by (simp add: digitize_def)
  have "length ?indices = length x" and "length ?pred0 = length x" by simp_all
  moreover from assms(5) have "Suc (length splits) \<le> length c" by simp
  ultimately
  obtain raw where loop: "predict_loop c ?indices x [0..<Suc (length splits)] ?pred0 = Inr raw"
    and len: "length raw = length x"
    and nth: "\<forall>j<length x. raw ! j
              = (if ?indices ! j < Suc (length splits)
                 then polyval (rev (c ! (?indices ! j))) (x ! j) else ?pred0 ! j)"
    using predict_loop_range[of ?indices x ?pred0 "Suc (length splits)" c] by blast
  have run: "predict self x PNone PNone = Inr raw"
    using assms(1,2,3) by (simp add: predict_def dig loop del: upt_Suc)
  have seg: "\<exists>k. in_segment splits v k \<and>
               (\<forall>k'. in_segment splits v k' \<longrightarrow> k' = k) \<and>
               raw ! j = Fin (poly_value (c ! k) v)"
    if j: "j < length x" and v: "x ! j = Fin v" for j v
  proof -
    let ?k = "searchsorted_right splits (Fin v)"
    have k: "in_segment splits v ?k"
      using sorted by (rule searchsorted_right_in_segment)
    have "?k < Suc (length splits)"
      using searchsorted_right_le[of splits "Fin v"] by simp
    with nth j v have "raw ! j = Fin (poly_value (c ! ?k) v)"
      by (simp add: polyval_finite)
    moreover have "\<forall>k'. in_segment splits v k' \<longrightarrow> k' = ?k"
      using in_segment_unique[OF assms(4) _ k] by blast
    ultimately show ?thesis using k by blast
  qed
  from run len seg show ?thesis by blast
qed

lemma takeWhile_none: "\<forall>s \<in> set a. \<not> P s \<Longrightarrow> takeWhile P a = []"
  by (cases a) auto

text \<open>
  C5. The claim is right about sorted splits (\<open>predict_sorted_splits\<close>), but \<open>predict\<close>
  bins against the splits \<open>fit\<close> stored, and \<open>fit\<close> stores them as passed (C3). After a
  successful \<open>fit\<close> with splits that are not ascending, \<open>predict\<close> does not bin as
  claimed: if the splits are descending, a sample below every split is evaluated on
  the last row of the table instead of row 0, and if they are in no order \<open>predict\<close>
  raises for every input, so no sample gets a segment.
\<close>

theorem predict_after_fit_with_unsorted_splits:
  assumes "fit S self x y splits lb ub = (Inr u, self')" and "\<not> sorted splits"
  shows "if sorted (rev splits)
         then \<forall>raw. predict self' xs PNone PNone = Inr raw \<longrightarrow>
                (\<exists>c. coef self' = Some c \<and>
                   (\<forall>j<length xs. \<forall>v. xs ! j = Fin v \<and> (\<forall>s \<in> set splits. v < s) \<longrightarrow>
                      raw ! j = Fin (poly_value (c ! length splits) v)))
         else \<exists>e. predict self' xs lb' ub' = Inl e"
proof -
  from fit_Inr[OF assms(1)] obtain c where
    self': "self' = self\<lparr>coef := Some c, splits_attr := Some splits, is_fitted := True\<rparr>"
    by blast
  show ?thesis
  proof (cases "sorted (rev splits)")
    case False
    with assms(2) have "digitize xs splits
        = Inl (ValueError ''bins must be monotonically increasing or decreasing'')"
      by (simp add: digitize_def)
    then have "\<exists>e. predict self' xs lb' ub' = Inl e"
      by (simp add: predict_def self' Let_def split: sum.splits)
    with False show ?thesis by simp
  next
    case True
    let ?indices = "map (\<lambda>v. length splits - searchsorted_right (rev splits) v) xs"
    let ?pred0 = "replicate (length xs) (Fin 0)"
    have dig: "digitize xs splits = Inr ?indices"
      using True assms(2) by (simp add: digitize_def)
    have "\<exists>c. coef self' = Some c \<and>
            (\<forall>j<length xs. \<forall>v. xs ! j = Fin v \<and> (\<forall>s \<in> set splits. v < s) \<longrightarrow>
               raw ! j = Fin (poly_value (c ! length splits) v))"
      if run: "predict self' xs PNone PNone = Inr raw" for raw
    proof -
      from run have loop: "predict_loop c ?indices xs [0..<Suc (length splits)] ?pred0 = Inr raw"
        by (simp add: predict_def self' dig del: upt_Suc split: sum.splits)
      then have rows: "Suc (length splits) \<le> length c" by (rule predict_loop_rows)
      have "length ?indices = length xs" and "length ?pred0 = length xs" by simp_all
      from predict_loop_range[OF this rows] loop
      have nth: "\<forall>j<length xs. raw ! j
              = (if ?indices ! j < Suc (length splits)
                 then polyval (rev (c ! (?indices ! j))) (xs ! j) else ?pred0 ! j)"
        by auto
      have "raw ! j = Fin (poly_value (c ! length splits) v)"
        if j: "j < length xs" and v: "xs ! j = Fin v" and below: "\<forall>s \<in> set splits. v < s"
        for j v
      proof -
        from below have "takeWhile (\<lambda>s. le_sample s (Fin v)) (rev splits) = []"
          by (intro takeWhile_none) auto
        then have "?indices ! j = length splits"
          using j v by (simp add: searchsorted_right_def)
        with nth j v show ?thesis by (simp add: polyval_finite)
      qed
      then show ?thesis by (simp add: self')
    qed
    with True show ?thesis by simp
  qed
qed

theorem predict_after_fit_with_unsorted_splits_witness:
  "fit (const_solvers (Inr [[0, 1], [7, 1], [9, 1], [11, 1]])) default_estimator
       [1, 2] [1, 2] [3, 1] PNone PNone
     = (Inr (), default_estimator\<lparr>coef := Some [[0, 1], [7, 1], [9, 1], [11, 1]],
                  splits_attr := Some [3, 1], is_fitted := True\<rparr>) \<and>
   predict (default_estimator\<lparr>coef := Some [[0, 1], [7, 1], [9, 1], [11, 1]],
              splits_attr := Some [3, 1], is_fitted := True\<rparr>) [Fin 0] PNone PNone
     = Inr [Fin 9] \<and>
   fit (const_solvers (Inr [[0, 1], [7, 1], [9, 1], [11, 1]])) default_estimator
       [1, 2] [1, 2] [2, 3, 1] PNone PNone
     = (Inr (), default_estimator\<lparr>coef := Some [[0, 1], [7, 1], [9, 1], [11, 1]],
                  splits_attr := Some [2, 3, 1], is_fitted := True\<rparr>) \<and>
   predict (default_estimator\<lparr>coef := Some [[0, 1], [7, 1], [9, 1], [11, 1]],
              splits_attr := Some [2, 3, 1], is_fitted := True\<rparr>) [Fin 0] PNone PNone
     = Inl (ValueError ''bins must be monotonically increasing or decreasing'')"
proof -
  let ?S = "const_solvers (Inr [[0, 1], [7, 1], [9, 1], [11, 1]])"
  let ?a = "default_estimator\<lparr>coef := Some [[0, 1], [7, 1], [9, 1], [11, 1]],
              splits_attr := Some [3, 1], is_fitted := True\<rparr>"
  let ?b = "default_estimator\<lparr>coef := Some [[0, 1], [7, 1], [9, 1], [11, 1]],
              splits_attr := Some [2, 3, 1], is_fitted := True\<rparr>"
  have fit_a: "fit ?S default_estimator [1, 2] [1, 2] [3, 1] PNone PNone = (Inr (), ?a)"
    by (simp add: fit_def default_estimator_def init_def std_params check_array_def
        check_splits_def choose_method_def run_method_def const_solvers_def Let_def)
  have fit_b: "fit ?S default_estimator [1, 2] [1, 2] [2, 3, 1] PNone PNone = (Inr (), ?b)"
    by (simp add: fit_def default_estimator_def init_def std_params check_array_def
        check_splits_def choose_method_def run_method_def const_solvers_def Let_def)
  have run_a: "predict ?a [Fin 0] PNone PNone = Inr [Fin 9]"
    by (simp add: predict_def digitize_def searchsorted_right_def assign_masked_def polyval_def)
  have "\<not> sorted [2, 3, 1 :: real]" by simp
  from predict_after_fit_with_unsorted_splits[OF fit_b this, of "[Fin 0]" PNone PNone]
  obtain e where "predict ?b [Fin 0] PNone PNone = Inl e" by auto
  moreover have "predict ?b [Fin 0] PNone PNone
      = Inl (ValueError ''bins must be monotonically increasing or decreasing'') \<or>
      (\<exists>r. predict ?b [Fin 0] PNone PNone = Inr r)"
    by (simp add: predict_def digitize_def)
  ultimately have run_b: "predict ?b [Fin 0] PNone PNone
      = Inl (ValueError ''bins must be monotonically increasing or decreasing'')"
    by auto
  from fit_a run_a fit_b run_b show ?thesis by simp
qed

section \<open>Clipping\<close>

lemma bit_length_le_iff: "bit_length n \<le> k \<longleftrightarrow> n < 2 ^ k"
proof (induction k arbitrary: n)
  case 0
  show ?case by (subst bit_length.simps) simp
next
  case (Suc k)
  have "bit_length n \<le> Suc k \<longleftrightarrow> n = 0 \<or> bit_length (n div 2) \<le> k"
    by (subst bit_length.simps) simp
  also have "\<dots> \<longleftrightarrow> n = 0 \<or> n div 2 < 2 ^ k" by (simp only: Suc.IH)
  also have "\<dots> \<longleftrightarrow> n < 2 ^ Suc k" by auto
  finally show ?case .
qed

text \<open>An integer of magnitude below \<open>2^53\<close> converts to float64 exactly.\<close>

lemma float64_of_int_exact:
  assumes "\<bar>i\<bar> < 2 ^ 53"
  shows "float64_of_int i = Some (of_int i)"
proof -
  from assms have "nat \<bar>i\<bar> < 2 ^ 53"
    by (simp add: nat_less_iff)
  then have "bit_length (nat \<bar>i\<bar>) \<le> 53" by (simp only: bit_length_le_iff)
  then show ?thesis by (simp add: float64_of_int_def Let_def)
qed

lemma bound_float64_exact:
  assumes "v = PNone \<or> is_number v"
    and "\<forall>i. v = PInt i \<longrightarrow> float64_of_int i = Some (of_int i)"
  shows "bound_float64 v = Inr (num_of v)"
  using assms by (cases v) (auto simp: is_number_def)

lemma fl_clip_lower:
  assumes "\<forall>u. ub = Some u \<longrightarrow> l \<le> u"
  shows "fl_min (fl_max p (Some l)) ub = NaN \<or> fl_le (Fin l) (fl_min (fl_max p (Some l)) ub)"
  using assms by (cases p; cases ub) auto

lemma fl_clip_upper:
  "fl_min (fl_max p lb) (Some u) = NaN \<or> fl_le (fl_min (fl_max p lb) (Some u)) (Fin u)"
  by (cases p; cases lb) auto

lemma fl_clip_not_nan: "p \<noteq> NaN \<Longrightarrow> fl_min (fl_max p lb) ub \<noteq> NaN"
  by (cases p; cases lb; cases ub) auto

lemma polyval_not_nan: "polyval p (Fin v) \<noteq> NaN"
  using polyval_finite[of "rev p" v] by simp

lemma assign_masked_not_nan:
  assumes "\<forall>v \<in> set x. \<exists>r. v = Fin r" and "\<forall>p \<in> set pred. p \<noteq> NaN"
  shows "\<forall>p \<in> set (assign_masked i row indices x pred). p \<noteq> NaN"
proof
  fix q assume "q \<in> set (assign_masked i row indices x pred)"
  then obtain p k v where "(p, k, v) \<in> set (zip pred (zip indices x))"
    and q: "q = (if k = i then polyval (rev row) v else p)"
    by (auto simp: assign_masked_def)
  then have "p \<in> set pred" and "v \<in> set x"
    by (auto dest: set_zip_leftD set_zip_rightD)
  with assms obtain r where "v = Fin r" and "p \<noteq> NaN" by blast
  with q show "q \<noteq> NaN" by (simp add: polyval_not_nan)
qed

lemma predict_loop_not_nan:
  assumes "\<forall>v \<in> set x. \<exists>r. v = Fin r"
  shows "\<forall>p \<in> set pred. p \<noteq> NaN \<Longrightarrow> predict_loop c indices x rows pred = Inr out \<Longrightarrow>
         \<forall>p \<in> set out. p \<noteq> NaN"
proof (induction rows arbitrary: pred)
  case Nil
  then show ?case by simp
next
  case (Cons i rows)
  from Cons.prems(2) have "i < length c"
    and rest: "predict_loop c indices x rows (assign_masked i (c ! i) indices x pred) = Inr out"
    by (auto split: if_splits)
  from assign_masked_not_nan[OF assms Cons.prems(1)] rest show ?case
    by (rule Cons.IH)
qed

text \<open>What a call of \<open>predict\<close> that returns has computed.\<close>

lemma predict_Inr:
  assumes "predict self x lb ub = Inr pred"
  shows "\<exists>c indices rows raw.
           predict_loop c indices x rows (replicate (length x) (Fin 0)) = Inr raw \<and>
           (lb \<noteq> PNone \<or> ub \<noteq> PNone \<longrightarrow>
              check_bounds lb ub = Inr () \<and> clip raw lb ub = Inr pred) \<and>
           (lb = PNone \<and> ub = PNone \<longrightarrow> pred = raw)"
  using assms
  by (auto simp: predict_def Let_def split: if_splits sum.splits option.splits)

text \<open>
  C6, as the specification states it, fails: \<open>predict\<close> does not check its samples, and
  \<open>np.clip\<close> lets NaN through, so a NaN sample gives a NaN prediction, which lies
  within no bounds. Also, \<open>np.clip\<close> rounds an integer bound to float64: with
  \<open>lb = 2^53 + 1\<close> the prediction returned for the sample 0 is \<open>2^53\<close>, below \<open>lb\<close>.
\<close>

theorem predict_within_bounds_counterexample:
  "predict (default_estimator\<lparr>coef := Some [[0, 1], [7, 1]], splits_attr := Some [4],
              is_fitted := True\<rparr>) [NaN] (PFloat 0) (PFloat 1) = Inr [NaN] \<and>
   \<not> fl_le (Fin 0) NaN \<and>
   predict (default_estimator\<lparr>coef := Some [[0, 1], [7, 1]], splits_attr := Some [4],
              is_fitted := True\<rparr>) [Fin 0] (PInt 9007199254740993) PNone
     = Inr [Fin 9007199254740992] \<and>
   \<not> fl_le (Fin 9007199254740993) (Fin 9007199254740992)"
proof -
  have "float64_of_int 9007199254740993 = Some 9007199254740992"
    by (simp add: float64_of_int_def bit_length.simps Let_def)
  then show ?thesis
    by (simp add: predict_def check_bounds_def is_number_def py_gt_def digitize_def
        searchsorted_right_def assign_masked_def polyval_def clip_def)
qed

text \<open>
  C6, amended. Let \<open>predict\<close> return, with bounds that float64 represents exactly
  (bools, finite floats, and integers that convert without rounding, as all of magnitude
  below \<open>2^53\<close> do). Then every bound given is a number, and every returned prediction
  that is not NaN is at least \<open>lb\<close> and at most \<open>ub\<close>; when all samples are finite, no
  prediction is NaN. This holds for any fitted instance, however it was fitted.
\<close>

theorem predict_clipped:
  assumes "predict self x lb ub = Inr pred"
    and "\<forall>i. lb = PInt i \<longrightarrow> float64_of_int i = Some (of_int i)"
    and "\<forall>i. ub = PInt i \<longrightarrow> float64_of_int i = Some (of_int i)"
  shows "(lb \<noteq> PNone \<longrightarrow>
            (\<exists>l. num_of lb = Some l \<and> (\<forall>p \<in> set pred. p = NaN \<or> fl_le (Fin l) p))) \<and>
         (ub \<noteq> PNone \<longrightarrow>
            (\<exists>u. num_of ub = Some u \<and> (\<forall>p \<in> set pred. p = NaN \<or> fl_le p (Fin u)))) \<and>
         ((\<forall>v \<in> set x. \<exists>r. v = Fin r) \<longrightarrow> (\<forall>p \<in> set pred. p \<noteq> NaN))"
proof -
  from predict_Inr[OF assms(1)] obtain c indices rows raw
    where loop: "predict_loop c indices x rows (replicate (length x) (Fin 0)) = Inr raw"
      and bounded: "lb \<noteq> PNone \<or> ub \<noteq> PNone \<Longrightarrow>
                      check_bounds lb ub = Inr () \<and> clip raw lb ub = Inr pred"
      and unbounded: "lb = PNone \<and> ub = PNone \<Longrightarrow> pred = raw"
    by blast
  have finite: "\<forall>p \<in> set raw. p \<noteq> NaN" if "\<forall>v \<in> set x. \<exists>r. v = Fin r"
    using that _ loop by (rule predict_loop_not_nan) simp
  show ?thesis
  proof (cases "lb \<noteq> PNone \<or> ub \<noteq> PNone")
    case False
    with unbounded finite show ?thesis by simp
  next
    case True
    with bounded have ok: "check_bounds lb ub = Inr ()" and clipped: "clip raw lb ub = Inr pred"
      by simp_all
    from ok have lb: "lb = PNone \<or> is_number lb" and ub: "ub = PNone \<or> is_number ub"
      by (auto simp: check_bounds_def split: if_splits)
    have order: "l \<le> u" if "num_of lb = Some l" and "num_of ub = Some u" for l u
      using ok that by (auto simp: check_bounds_def py_gt_def split: if_splits)
    from clipped have pred: "pred = map (\<lambda>p. fl_min (fl_max p (num_of lb)) (num_of ub)) raw"
      by (simp add: clip_def bound_float64_exact[OF lb assms(2)]
          bound_float64_exact[OF ub assms(3)])
    have lower: "\<exists>l. num_of lb = Some l \<and> (\<forall>p \<in> set pred. p = NaN \<or> fl_le (Fin l) p)"
      if "lb \<noteq> PNone"
    proof -
      from that lb obtain l where l: "num_of lb = Some l"
        by (auto simp: is_number_def)
      have "\<forall>u. num_of ub = Some u \<longrightarrow> l \<le> u" using order[OF l] by simp
      then have "\<forall>p \<in> set pred. p = NaN \<or> fl_le (Fin l) p"
        unfolding pred l using fl_clip_lower by auto
      with l show ?thesis by simp
    qed
    have upper: "\<exists>u. num_of ub = Some u \<and> (\<forall>p \<in> set pred. p = NaN \<or> fl_le p (Fin u))"
      if "ub \<noteq> PNone"
    proof -
      from that ub obtain u where u: "num_of ub = Some u"
        by (auto simp: is_number_def)
      have "\<forall>p \<in> set pred. p = NaN \<or> fl_le p (Fin u)"
        unfolding pred u using fl_clip_upper by auto
      with u show ?thesis by simp
    qed
    have "\<forall>p \<in> set pred. p \<noteq> NaN" if "\<forall>v \<in> set x. \<exists>r. v = Fin r"
      unfolding pred using finite[OF that] by (auto simp: fl_clip_not_nan)
    with lower upper show ?thesis by blast
  qed
qed

theorem predict_clipped_witness:
  "predict (default_estimator\<lparr>coef := Some [[0, 1], [7, 1]], splits_attr := Some [4],
             is_fitted := True\<rparr>) [Fin 1, Fin 4, Fin 6] (PInt 2) (PFloat 12)
     = Inr [Fin 2, Fin 11, Fin 12] \<and>
   list_all (\<lambda>p. fl_le (Fin 2) p \<and> fl_le p (Fin 12)) [Fin 2, Fin 11, Fin 12]"
proof -
  have exact: "float64_of_int 2 = Some 2"
    using float64_of_int_exact[of 2] by simp
  have run: "predict (default_estimator\<lparr>coef := Some [[0, 1], [7, 1]], splits_attr := Some [4],
             is_fitted := True\<rparr>) [Fin 1, Fin 4, Fin 6] (PInt 2) (PFloat 12)
     = Inr [Fin 2, Fin 11, Fin 12]"
    by (simp add: predict_def check_bounds_def is_number_def py_gt_def digitize_def
        searchsorted_right_def assign_masked_def polyval_def clip_def exact)
  have "\<forall>i. PInt 2 = PInt i \<longrightarrow> float64_of_int i = Some (of_int i)"
    using exact by simp
  moreover have "\<forall>i. PFloat 12 = PInt i \<longrightarrow> float64_of_int i = Some (of_int i)"
    by simp
  ultimately have "\<forall>p \<in> set [Fin 2, Fin 11, Fin 12]. p = NaN \<or> fl_le (Fin 2) p"
    and "\<forall>p \<in> set [Fin 2, Fin 11, Fin 12]. p = NaN \<or> fl_le p (Fin 12)"
    using predict_clipped[OF run] by simp_all
  then have "list_all (\<lambda>p. fl_le (Fin 2) p \<and> fl_le p (Fin 12)) [Fin 2, Fin 11, Fin 12]"
    by simp
  with run show ?thesis by simp
qed

end
